theory Spec2Isabelle
  imports Main "HOL-Library.Word" "HOL-Library.Sublist"
begin

section \<open>Strings\<close>

text \<open>
  A TypeScript string is a sequence of UTF-16 code units. String literals of the source
  are ASCII and are written with \<open>js\<close>.
\<close>

type_synonym jschar = "16 word"
type_synonym jsstring = "jschar list"

definition js :: "string \<Rightarrow> jsstring" where
  "js s = map of_char s"

text \<open>
  The code units that \<^verbatim>\<open>String.prototype.trim\<close> removes and that the regular
  expression class \<^verbatim>\<open>\s\<close> matches: the WhiteSpace and LineTerminator productions of
  ECMAScript (tab, LF, VT, FF, CR, space, NBSP, U+1680, U+2000 to U+200A, U+2028, U+2029,
  U+202F, U+205F, U+3000, U+FEFF).
\<close>

definition isWhiteSpace :: "jschar \<Rightarrow> bool" where
  "isWhiteSpace c =
     (c = 0x09 \<or> c = 0x0A \<or> c = 0x0B \<or> c = 0x0C \<or> c = 0x0D \<or> c = 0x20 \<or> c = 0xA0 \<or>
      c = 0x1680 \<or> (0x2000 \<le> c \<and> c \<le> 0x200A) \<or> c = 0x2028 \<or> c = 0x2029 \<or>
      c = 0x202F \<or> c = 0x205F \<or> c = 0x3000 \<or> c = 0xFEFF)"

text \<open>The class \<^verbatim>\<open>\w\<close> of a regular expression without flags: \<^verbatim>\<open>[A-Za-z0-9_]\<close>.\<close>

definition isWordChar :: "jschar \<Rightarrow> bool" where
  "isWordChar c =
     ((0x41 \<le> c \<and> c \<le> 0x5A) \<or> (0x61 \<le> c \<and> c \<le> 0x7A) \<or>
      (0x30 \<le> c \<and> c \<le> 0x39) \<or> c = 0x5F)"

definition isDigit :: "jschar \<Rightarrow> bool" where
  "isDigit c = (0x30 \<le> c \<and> c \<le> 0x39)"

text \<open>\<^verbatim>\<open>s.startsWith(k)\<close>.\<close>

definition startsWith :: "jsstring \<Rightarrow> jsstring \<Rightarrow> bool" where
  "startsWith s k = prefix k s"

text \<open>\<^verbatim>\<open>s.trim()\<close> and the \<^verbatim>\<open>TrimString(s, start)\<close> that \<^verbatim>\<open>parseFloat\<close> applies.\<close>

definition trimStart :: "jsstring \<Rightarrow> jsstring" where
  "trimStart s = dropWhile isWhiteSpace s"

definition trim :: "jsstring \<Rightarrow> jsstring" where
  "trim s = rev (dropWhile isWhiteSpace (rev (dropWhile isWhiteSpace s)))"

text \<open>
  \<^verbatim>\<open>s.replace(pat, rep)\<close> with a string pattern: the leftmost occurrence of \<open>pat\<close> is
  replaced, the rest of the string is kept. The source only passes the replacement
  \<^verbatim>\<open>""\<close>, so the \<^verbatim>\<open>$\<close> patterns of a replacement string play no part.
\<close>

fun replace_str :: "jsstring \<Rightarrow> jsstring \<Rightarrow> jsstring \<Rightarrow> jsstring" where
  "replace_str pat rep [] = (if pat = [] then rep else [])"
| "replace_str pat rep (c # cs) =
     (if startsWith (c # cs) pat then rep @ drop (length pat) (c # cs)
      else c # replace_str pat rep cs)"

text \<open>\<^verbatim>\<open>s.split(",")\<close>: the pieces between the separators; the empty string gives one empty piece.\<close>

fun split_str :: "jschar \<Rightarrow> jsstring \<Rightarrow> jsstring list" where
  "split_str sep [] = [[]]"
| "split_str sep (c # cs) =
     (if c = sep then [] # split_str sep cs
      else (case split_str sep cs of
              p # ps \<Rightarrow> (c # p) # ps
            | [] \<Rightarrow> [[c]]))"

text \<open>
  \<^verbatim>\<open>x || null\<close> on a value of type \<^verbatim>\<open>string | null\<close>: the empty string is falsy.
  \<open>None\<close> stands for \<^verbatim>\<open>null\<close>.
\<close>

fun orNull :: "jsstring option \<Rightarrow> jsstring option" where
  "orNull None = None"
| "orNull (Some s) = (if s = [] then None else Some s)"

section \<open>Data model\<close>

text \<open>
  \<^verbatim>\<open>L.AgentActivityType\<close> of the tracker's SDK, and the tagged union \<^verbatim>\<open>Content\<close>:
  every variant but the action carries a body; an action carries the tool name, the
  parameter (\<^verbatim>\<open>string | null\<close>) and the result (absent until the tool has run).
\<close>

datatype AgentActivityType = Thought | Action | Response | Elicitation | Error | Prompt

type_synonym ToolName = jsstring

datatype Content =
    ThoughtContent jsstring
  | ActionContent ToolName "jsstring option" "jsstring option"
  | ResponseContent jsstring
  | ElicitationContent jsstring
  | ErrorContent jsstring
  | PromptContent jsstring

fun contentType :: "Content \<Rightarrow> AgentActivityType" where
  "contentType (ThoughtContent b) = Thought"
| "contentType (ActionContent a p r) = Action"
| "contentType (ResponseContent b) = Response"
| "contentType (ElicitationContent b) = Elicitation"
| "contentType (ErrorContent b) = Error"
| "contentType (PromptContent b) = Prompt"

fun contentBody :: "Content \<Rightarrow> jsstring option" where
  "contentBody (ThoughtContent b) = Some b"
| "contentBody (ActionContent a p r) = None"
| "contentBody (ResponseContent b) = Some b"
| "contentBody (ElicitationContent b) = Some b"
| "contentBody (ErrorContent b) = Some b"
| "contentBody (PromptContent b) = Some b"

text \<open>
  What a \<^verbatim>\<open>throw\<close> carries: an \<^verbatim>\<open>Error\<close> with its message, the
  \<^verbatim>\<open>UnreachableCaseError\<close> of \<^verbatim>\<open>../types\<close> built from an activity type (in the mapper)
  or from a tool name (in the executor), or a value that is no \<^verbatim>\<open>Error\<close> (which only
  the external calls can throw).
\<close>

datatype thrown =
    JsError jsstring
  | UnreachableType AgentActivityType
  | UnreachableTool jsstring
  | NonError

section \<open>Activity Mapper\<close>

text \<open>The object literal \<^verbatim>\<open>typeToKeyword\<close>, in the order \<^verbatim>\<open>Object.entries\<close> lists it.\<close>

definition typeToKeyword :: "(AgentActivityType \<times> jsstring) list" where
  "typeToKeyword =
     [(Thought, js ''THINKING:''),
      (Action, js ''ACTION:''),
      (Response, js ''RESPONSE:''),
      (Elicitation, js ''ELICITATION:''),
      (Error, js ''ERROR:'')]"

text \<open>
  \<^verbatim>\<open>typeToKeyword[type]\<close>; a key that the object does not have gives \<^verbatim>\<open>undefined\<close>, which
  \<^verbatim>\<open>replace\<close> would read as the string \<^verbatim>\<open>"undefined"\<close>.
\<close>

definition keywordOf :: "AgentActivityType \<Rightarrow> jsstring" where
  "keywordOf t = (case map_of typeToKeyword t of Some k \<Rightarrow> k | None \<Rightarrow> js ''undefined'')"

text \<open>
  Modelled from the spec: \<^verbatim>\<open>isToolName\<close> is declared in \<^verbatim>\<open>../types\<close>, which is not among the
  sources. The spec registers three tool names; they are the three cases of the switch
  of \<^verbatim>\<open>executeAction\<close>.
\<close>

definition isToolName :: "jsstring \<Rightarrow> bool" where
  "isToolName s = (s = js ''getCoordinates'' \<or> s = js ''getWeather'' \<or> s = js ''getTime'')"

text \<open>
  The regular expression \<^verbatim>\<open>/ACTION:\s*(\w+)\(([^)]+)\)/\<close> tried at the start of \<open>s\<close>.
  The three repetitions are greedy, and none can give a code unit back: what follows
  \<^verbatim>\<open>\s*\<close> is a word character, what follows \<^verbatim>\<open>\w+\<close> is \<^verbatim>\<open>(\<close>, what follows \<^verbatim>\<open>[^)]+\<close> is
  \<^verbatim>\<open>)\<close>, and none of these is in the class before it. So each repetition takes its
  longest run, and the match at one position is unique. The result is the pair of the
  two groups.
\<close>

definition actionMatchAt :: "jsstring \<Rightarrow> (jsstring \<times> jsstring) option" where
  "actionMatchAt s =
     (if startsWith s (js ''ACTION:'') then
        (let afterSpace = dropWhile isWhiteSpace (drop 7 s);
             name = takeWhile isWordChar afterSpace
         in case dropWhile isWordChar afterSpace of
              [] \<Rightarrow> None
            | c # afterParen \<Rightarrow>
                if name \<noteq> [] \<and> c = 0x28 then
                  (let args = takeWhile (\<lambda>d. d \<noteq> 0x29) afterParen
                   in if args \<noteq> [] \<and> dropWhile (\<lambda>d. d \<noteq> 0x29) afterParen \<noteq> []
                      then Some (name, args) else None)
                else None)
      else None)"

text \<open>
  \<^verbatim>\<open>response.match(re)\<close> without the global flag: the match at the leftmost position
  that has one, \<open>None\<close> for \<^verbatim>\<open>null\<close>.
\<close>

fun actionMatch :: "jsstring \<Rightarrow> (jsstring \<times> jsstring) option" where
  "actionMatch [] = None"
| "actionMatch (c # cs) =
     (case actionMatchAt (c # cs) of
        Some m \<Rightarrow> Some m
      | None \<Rightarrow> actionMatch cs)"

text \<open>
  \<^verbatim>\<open>mapResponseToLinearActivityContent\<close>. The \<^verbatim>\<open>case Action\<close> of the switch has no
  \<^verbatim>\<open>break\<close>: when the expression does not match, control falls into \<^verbatim>\<open>default\<close>.
\<close>

definition mapResponseToLinearActivityContent :: "jsstring \<Rightarrow> thrown + Content" where
  "mapResponseToLinearActivityContent response =
     (let mappedType = find (\<lambda>(t, keyword). startsWith response keyword) typeToKeyword;
          type = (case mappedType of Some (t, keyword) \<Rightarrow> t | None \<Rightarrow> Thought);
          body = trim (replace_str (keywordOf type) [] response)
      in case type of
           Thought \<Rightarrow> Inr (ThoughtContent body)
         | Response \<Rightarrow> Inr (ResponseContent body)
         | Elicitation \<Rightarrow> Inr (ElicitationContent body)
         | Error \<Rightarrow> Inr (ErrorContent body)
         | Action \<Rightarrow>
             (case actionMatch response of
                Some (toolNameRaw, params) \<Rightarrow>
                  if \<not> isToolName toolNameRaw
                  then Inl (JsError (js ''Invalid tool name: '' @ toolNameRaw))
                  else Inr (ActionContent toolNameRaw (orNull (Some params)) None)
              | None \<Rightarrow> Inl (UnreachableType type))
         | Prompt \<Rightarrow> Inl (UnreachableType type))"

section \<open>Tool Executors\<close>

text \<open>
  \<^verbatim>\<open>parseFloat\<close> reads the longest prefix of the string, after its leading white space,
  that is a \<^verbatim>\<open>StrDecimalLiteral\<close> of ECMAScript: an optional sign, then \<^verbatim>\<open>Infinity\<close>,
  or digits with an optional fraction, or a fraction that starts with the point, each
  with an optional exponent. When no prefix is such a literal the result is \<^verbatim>\<open>NaN\<close>.
  \<open>exponentPart\<close> is the longest \<^verbatim>\<open>ExponentPart\<close> at the start of a string (empty when
  there is none), \<open>strDecimalLiteral\<close> the longest literal (\<open>None\<close> when there is none).
\<close>

definition exponentPart :: "jsstring \<Rightarrow> jsstring" where
  "exponentPart s =
     (case s of
        [] \<Rightarrow> []
      | e # r \<Rightarrow>
          if e = 0x65 \<or> e = 0x45 then
            (case r of
               [] \<Rightarrow> []
             | c # r' \<Rightarrow>
                 if c = 0x2B \<or> c = 0x2D then
                   (if takeWhile isDigit r' = [] then [] else e # c # takeWhile isDigit r')
                 else
                   (if takeWhile isDigit r = [] then [] else e # takeWhile isDigit r))
          else [])"

definition strUnsignedDecimalLiteral :: "jsstring \<Rightarrow> jsstring option" where
  "strUnsignedDecimalLiteral s =
     (if startsWith s (js ''Infinity'') then Some (js ''Infinity'')
      else
        (let ds = takeWhile isDigit s
         in case dropWhile isDigit s of
              [] \<Rightarrow> (if ds = [] then None else Some ds)
            | c # r \<Rightarrow>
                if c = 0x2E then
                  (let fs = takeWhile isDigit r
                   in if ds = [] \<and> fs = [] then None
                      else Some (ds @ c # fs @ exponentPart (dropWhile isDigit r)))
                else if ds = [] then None
                else Some (ds @ exponentPart (c # r))))"

definition strDecimalLiteral :: "jsstring \<Rightarrow> jsstring option" where
  "strDecimalLiteral s =
     (case s of
        [] \<Rightarrow> None
      | c # r \<Rightarrow>
          if c = 0x2B \<or> c = 0x2D then map_option ((#) c) (strUnsignedDecimalLiteral r)
          else strUnsignedDecimalLiteral s)"

text \<open>
  The tools of \<^verbatim>\<open>./tools\<close> are external HTTP calls, and a number of the source is an
  IEEE double: both are parameters of the model. \<open>'n\<close> is the type of numbers other
  than \<^verbatim>\<open>NaN\<close>, \<open>numberOf\<close> gives the number that a decimal literal denotes, and
  \<open>'r\<close> is the type of the values that the tools resolve to. A tool either throws or
  returns. \<open>stringify\<close> is \<^verbatim>\<open>JSON.stringify\<close> on such a value.
\<close>

record ('n, 'r) Tools =
  numberOf :: "jsstring \<Rightarrow> 'n"
  getCoordinates :: "jsstring \<Rightarrow> thrown + 'r"
  getWeather :: "'n \<Rightarrow> 'n \<Rightarrow> thrown + 'r"
  getTime :: "'n \<Rightarrow> 'n \<Rightarrow> thrown + jsstring"
  stringify :: "'r \<Rightarrow> jsstring"

text \<open>\<^verbatim>\<open>parseFloat(s)\<close>; \<open>None\<close> is \<^verbatim>\<open>NaN\<close>, so \<^verbatim>\<open>isNaN(x)\<close> is \<open>x = None\<close>.\<close>

definition parseFloat :: "('n, 'r) Tools \<Rightarrow> jsstring \<Rightarrow> 'n option" where
  "parseFloat T s = map_option (numberOf T) (strDecimalLiteral (trimStart s))"

text \<open>
  \<^verbatim>\<open>executeAction\<close>. \<^verbatim>\<open>!parameter\<close> holds for \<^verbatim>\<open>null\<close> and for the empty string.
  The test \<^verbatim>\<open>paramParts.length >= 2 && !isNaN(paramParts[0]) && !isNaN(paramParts[1])\<close>
  is the pattern of a list that starts with two numbers.
\<close>

definition executeAction ::
  "('n, 'r) Tools \<Rightarrow> ToolName \<Rightarrow> jsstring option \<Rightarrow> thrown + jsstring" where
  "executeAction T action parameter =
     (case orNull parameter of
        None \<Rightarrow> Inl (JsError (js ''Parameter is required for action execution''))
      | Some p \<Rightarrow>
          if action = js ''getCoordinates'' then
            (case getCoordinates T (filter (\<lambda>c. c \<noteq> 0x22) p) of
               Inl e \<Rightarrow> Inl e
             | Inr v \<Rightarrow> Inr (stringify T v))
          else if action = js ''getWeather'' then
            (let paramParts = map (\<lambda>q. parseFloat T (trim q)) (split_str 0x2C p)
             in case paramParts of
                  Some lat # Some long # rest \<Rightarrow>
                    (case getWeather T lat long of
                       Inl e \<Rightarrow> Inl e
                     | Inr v \<Rightarrow> Inr (stringify T v))
                | _ \<Rightarrow> Inl (JsError (js ''Invalid parameter for getWeather action'')))
          else if action = js ''getTime'' then
            (let timeParamParts = map (\<lambda>q. parseFloat T (trim q)) (split_str 0x2C p)
             in case timeParamParts of
                  Some lat # Some long # rest \<Rightarrow> getTime T lat long
                | _ \<Rightarrow> Inl (JsError (js ''Invalid parameter for getTime action'')))
          else Inl (UnreachableTool action))"

text \<open>
  The numeric tokens of a parameter, in the words of the spec: the pieces between the
  commas that \<^verbatim>\<open>parseFloat\<close> reads as a number.
\<close>

definition numericTokens :: "jsstring \<Rightarrow> jsstring list" where
  "numericTokens p =
     filter (\<lambda>q. strDecimalLiteral (trimStart (trim q)) \<noteq> None) (split_str 0x2C p)"

section \<open>Agent Loop\<close>

text \<open>A message of the conversation history, \<^verbatim>\<open>{ role, content }\<close>.\<close>

datatype Role = system | user | assistant

datatype Message = Message Role jsstring

text \<open>
  One page of a session's activities: \<^verbatim>\<open>nodes\<close>, \<^verbatim>\<open>pageInfo.hasNextPage\<close> and
  \<^verbatim>\<open>pageInfo.endCursor\<close> (\<open>None\<close> when the page has no cursor).
\<close>

record Page =
  nodes :: "Content list"
  hasNextPage :: bool
  endCursor :: "jsstring option"

text \<open>
  What is outside the program, for one invocation:
  \<^item> \<open>completions i ms\<close>: what \<^verbatim>\<open>openai.chat.completions.create\<close> does in iteration \<open>i\<close> on
    the messages \<open>ms\<close>; it throws, or returns the content of the first choice (\<open>None\<close>
    when the reply has none);
  \<^item> \<open>createFails k\<close>: whether the \<open>k\<close>-th call of \<^verbatim>\<open>linearClient.createAgentActivity\<close> of
    the invocation (counted from 0) throws, and what; a call that throws is taken to
    persist nothing;
  \<^item> \<open>tools i\<close>: the tools as they answer in iteration \<open>i\<close>;
  \<^item> \<open>unreachableMessage e\<close>: the \<^verbatim>\<open>message\<close> of an \<^verbatim>\<open>UnreachableCaseError\<close>, a class of
    \<^verbatim>\<open>../types\<close> that is not among the sources (\<open>None\<close> if it were no \<^verbatim>\<open>Error\<close>);
  \<^item> \<open>prompt\<close>: the system instruction of \<^verbatim>\<open>./prompt\<close>;
  \<^item> \<open>sessionActivities sid after\<close>: \<^verbatim>\<open>linearClient.agentSession(sid)\<close> followed by
    \<^verbatim>\<open>activities({ after })\<close>, which throws or returns a page.
\<close>

record ('n, 'r) World =
  completions :: "nat \<Rightarrow> Message list \<Rightarrow> thrown + jsstring option"
  createFails :: "nat \<Rightarrow> thrown option"
  tools :: "nat \<Rightarrow> ('n, 'r) Tools"
  unreachableMessage :: "thrown \<Rightarrow> jsstring option"
  prompt :: jsstring
  sessionActivities :: "jsstring \<Rightarrow> jsstring option \<Rightarrow> thrown + Page"

text \<open>
  What one invocation changes: the local array \<^verbatim>\<open>messages\<close>, the activities it has
  persisted in the session so far (oldest first), and the number of calls of
  \<^verbatim>\<open>createAgentActivity\<close> it has made.
\<close>

record State =
  messages :: "Message list"
  activities :: "Content list"
  created :: nat

definition MAX_ITERATIONS :: nat where
  "MAX_ITERATIONS = 10"

definition maxIterationsMessage :: jsstring where
  "maxIterationsMessage =
     js ''The agent has reached the maximum number of iterations and will now stop.''"

text \<open>\<^verbatim>\<open>error instanceof Error ? error.message : "Unknown error"\<close>.\<close>

definition errorMessage :: "('n, 'r) World \<Rightarrow> thrown \<Rightarrow> jsstring" where
  "errorMessage w error =
     (case error of
        JsError m \<Rightarrow> m
      | NonError \<Rightarrow> js ''Unknown error''
      | _ \<Rightarrow> (case unreachableMessage w error of
                Some m \<Rightarrow> m
              | None \<Rightarrow> js ''Unknown error''))"

text \<open>\<^verbatim>\<open>callOpenAI\<close>: an empty or absent content becomes \<^verbatim>\<open>"No response"\<close>.\<close>

definition callOpenAI :: "('n, 'r) World \<Rightarrow> nat \<Rightarrow> Message list \<Rightarrow> thrown + jsstring" where
  "callOpenAI w i ms =
     (case completions w i ms of
        Inr content \<Rightarrow>
          Inr (case orNull content of Some c \<Rightarrow> c | None \<Rightarrow> js ''No response'')
      | Inl error \<Rightarrow> Inl (JsError (js ''OpenAI API error: '' @ errorMessage w error)))"

text \<open>
  \<^verbatim>\<open>await this.linearClient.createAgentActivity({ agentSessionId, content })\<close>: the
  exception, if the call throws, and the state after the call.
\<close>

definition createAgentActivity ::
  "('n, 'r) World \<Rightarrow> Content \<Rightarrow> State \<Rightarrow> thrown option \<times> State" where
  "createAgentActivity w content s =
     (case createFails w (created s) of
        Some e \<Rightarrow> (Some e, s\<lparr>created := Suc (created s)\<rparr>)
      | None \<Rightarrow>
          (None, s\<lparr>activities := activities s @ [content], created := Suc (created s)\<rparr>))"

text \<open>
  The \<^verbatim>\<open>try\<close> block of iteration \<open>i\<close>: the exception that leaves it, if any, the value
  of \<^verbatim>\<open>taskComplete\<close> after it (which is false before it), and the state. The waits of
  one second take time and do nothing else. No branch of the source takes a content of
  type prompt.
\<close>

definition tryBlock ::
  "('n, 'r) World \<Rightarrow> nat \<Rightarrow> State \<Rightarrow> thrown option \<times> bool \<times> State" where
  "tryBlock w i s =
     (case callOpenAI w i (messages s) of
        Inl e \<Rightarrow> (Some e, False, s)
      | Inr response \<Rightarrow>
     (case mapResponseToLinearActivityContent response of
        Inl e \<Rightarrow> (Some e, False, s)
      | Inr content \<Rightarrow>
     (case content of
        ThoughtContent b \<Rightarrow>
          (case createAgentActivity w content s of
             (Some e, s1) \<Rightarrow> (Some e, False, s1)
           | (None, s1) \<Rightarrow>
               (None, False, s1\<lparr>messages := messages s1 @ [Message assistant response]\<rparr>))
      | ActionContent toolName parameter r \<Rightarrow>
          (case createAgentActivity w content s of
             (Some e, s1) \<Rightarrow> (Some e, False, s1)
           | (None, s1) \<Rightarrow>
          (case executeAction (tools w i) toolName parameter of
             Inl e \<Rightarrow> (Some e, False, s1)
           | Inr toolResult \<Rightarrow>
               (let s2 = s1\<lparr>messages := messages s1 @
                           [Message assistant response,
                            Message user (js ''Tool result: '' @ toolResult)]\<rparr>;
                    resultContent = ActionContent toolName (orNull parameter) (Some toolResult)
                in case createAgentActivity w resultContent s2 of
                     (Some e, s3) \<Rightarrow> (Some e, False, s3)
                   | (None, s3) \<Rightarrow> (None, False, s3))))
      | ResponseContent b \<Rightarrow>
          (case createAgentActivity w content s of
             (Some e, s1) \<Rightarrow> (Some e, False, s1)
           | (None, s1) \<Rightarrow> (None, True, s1))
      | ErrorContent b \<Rightarrow>
          (case createAgentActivity w content s of
             (Some e, s1) \<Rightarrow> (Some e, False, s1)
           | (None, s1) \<Rightarrow> (None, True, s1))
      | ElicitationContent b \<Rightarrow>
          (case createAgentActivity w content s of
             (Some e, s1) \<Rightarrow> (Some e, False, s1)
           | (None, s1) \<Rightarrow> (None, True, s1))
      | PromptContent b \<Rightarrow> (None, False, s))))"

text \<open>
  The \<^verbatim>\<open>while\<close> loop, from the values of \<^verbatim>\<open>taskComplete\<close> and \<^verbatim>\<open>iterations\<close> at its
  head. The \<^verbatim>\<open>catch\<close> block persists an error activity and sets \<^verbatim>\<open>taskComplete\<close>; an
  exception of that call is not caught and leaves \<^verbatim>\<open>handleUserPrompt\<close>. The result is that
  exception, if any, and the values of \<^verbatim>\<open>taskComplete\<close>, \<^verbatim>\<open>iterations\<close> and the state at the
  end.
\<close>

function whileLoop ::
  "('n, 'r) World \<Rightarrow> bool \<Rightarrow> nat \<Rightarrow> State \<Rightarrow> thrown option \<times> bool \<times> nat \<times> State" where
  "whileLoop w taskComplete iterations s =
     (if \<not> taskComplete \<and> iterations < MAX_ITERATIONS then
        (case tryBlock w (Suc iterations) s of
           (None, taskComplete', s') \<Rightarrow> whileLoop w taskComplete' (Suc iterations) s'
         | (Some error, taskComplete', s') \<Rightarrow>
             (case createAgentActivity w
                     (ErrorContent (js ''Agent error: '' @ errorMessage w error)) s' of
                (Some e, s'') \<Rightarrow> (Some e, taskComplete, Suc iterations, s'')
              | (None, s'') \<Rightarrow> whileLoop w True (Suc iterations) s''))
      else (None, taskComplete, iterations, s))"
  by pat_completeness auto
termination
  by (relation "measure (\<lambda>(w, taskComplete, iterations, s). MAX_ITERATIONS - iterations)") auto

text \<open>The statement after the loop, on what the loop returned.\<close>

definition afterLoop ::
  "('n, 'r) World \<Rightarrow> thrown option \<times> bool \<times> nat \<times> State \<Rightarrow> thrown option \<times> nat \<times> State" where
  "afterLoop w r =
     (case r of
        (Some e, taskComplete, iterations, s) \<Rightarrow> (Some e, iterations, s)
      | (None, taskComplete, iterations, s) \<Rightarrow>
          if \<not> taskComplete \<and> iterations \<ge> MAX_ITERATIONS then
            (case createAgentActivity w (ErrorContent maxIterationsMessage) s of
               (e, s') \<Rightarrow> (e, iterations, s'))
          else (None, iterations, s))"

text \<open>
  Lines 41 to 142 of \<^verbatim>\<open>handleUserPrompt\<close>, from the seeded history: the exception that
  leaves the function, if any, the number of iterations made, and the final state.
\<close>

definition agentLoop ::
  "('n, 'r) World \<Rightarrow> Message list \<Rightarrow> thrown option \<times> nat \<times> State" where
  "agentLoop w ms =
     afterLoop w (whileLoop w False 0 \<lparr>messages = ms, activities = [], created = 0\<rparr>)"

text \<open>
  The loop of \<^verbatim>\<open>generateMessagesFromPreviousActivities\<close> that fetches the pages after the
  first. Nothing bounds it: against a tracker that never serves a last page it does not
  return, which is the value \<open>None\<close>.
\<close>

partial_function (option) fetchPages ::
  "(jsstring option \<Rightarrow> thrown + Page) \<Rightarrow> Content list \<Rightarrow> Page \<Rightarrow> bool \<Rightarrow>
   (thrown + Content list) option" where
  "fetchPages fetch allActivities activitiesConnection hasNext =
     (if hasNext \<and> orNull (endCursor activitiesConnection) \<noteq> None then
        (case fetch (endCursor activitiesConnection) of
           Inl e \<Rightarrow> Some (Inl e)
         | Inr next \<Rightarrow> fetchPages fetch (allActivities @ nodes next) next (hasNextPage next))
      else Some (Inr allActivities))"

declare fetchPages.simps [code]

text \<open>
  The message of a previous activity. The filter before it keeps prompts and
  responses only, and both have a body.
\<close>

definition activityMessage :: "Content \<Rightarrow> Message" where
  "activityMessage activity =
     Message (if contentType activity = Prompt then user else assistant)
             (case contentBody activity of Some b \<Rightarrow> b | None \<Rightarrow> [])"

definition isPromptOrResponse :: "Content \<Rightarrow> bool" where
  "isPromptOrResponse activity =
     (contentType activity = Prompt \<or> contentType activity = Response)"

definition generateMessagesFromPreviousActivities ::
  "('n, 'r) World \<Rightarrow> jsstring \<Rightarrow> (thrown + Message list) option" where
  "generateMessagesFromPreviousActivities w agentSessionId =
     (case sessionActivities w agentSessionId None of
        Inl e \<Rightarrow> Some (Inl e)
      | Inr first \<Rightarrow>
          (case fetchPages (sessionActivities w agentSessionId) (nodes first) first
                  (hasNextPage first) of
             None \<Rightarrow> None
           | Some (Inl e) \<Rightarrow> Some (Inl e)
           | Some (Inr allActivities) \<Rightarrow>
               Some (Inr (map activityMessage (rev (filter isPromptOrResponse allActivities))))))"

text \<open>
  \<^verbatim>\<open>handleUserPrompt\<close>: \<open>None\<close> when it does not return; an exception of the fetch of the
  previous activities leaves the function before the loop.
\<close>

definition handleUserPrompt ::
  "('n, 'r) World \<Rightarrow> jsstring \<Rightarrow> jsstring \<Rightarrow> (thrown option \<times> nat \<times> State) option" where
  "handleUserPrompt w agentSessionId userPrompt =
     (case generateMessagesFromPreviousActivities w agentSessionId of
        None \<Rightarrow> None
      | Some (Inl e) \<Rightarrow> Some (Some e, 0, \<lparr>messages = [], activities = [], created = 0\<rparr>)
      | Some (Inr previous) \<Rightarrow>
          Some (agentLoop w
                  ([Message system (prompt w)] @
                   (if userPrompt \<noteq> [] then [Message user userPrompt] else []) @
                   previous)))"

section \<open>Notions of the specification\<close>

text \<open>
  The Action call pattern as the spec words it: the keyword \<^verbatim>\<open>ACTION:\<close>, optional white
  space, an identifier (a non-empty run of word characters) and a parenthesized,
  non-empty argument string without a closing parenthesis in it. A text has the pattern
  when such a call stands somewhere in it, which is when the regular expression of the
  source matches.
\<close>

definition callText :: "jsstring \<Rightarrow> jsstring \<Rightarrow> jsstring \<Rightarrow> jsstring" where
  "callText ws name args = js ''ACTION:'' @ ws @ name @ [0x28] @ args @ [0x29]"

definition isCallParts :: "jsstring \<Rightarrow> jsstring \<Rightarrow> jsstring \<Rightarrow> bool" where
  "isCallParts ws name args =
     (list_all isWhiteSpace ws \<and> name \<noteq> [] \<and> list_all isWordChar name \<and>
      args \<noteq> [] \<and> list_all (\<lambda>d. d \<noteq> 0x29) args)"

definition hasCallPattern :: "jsstring \<Rightarrow> bool" where
  "hasCallPattern response =
     (\<exists>pre ws name args rest.
        isCallParts ws name args \<and> response = pre @ callText ws name args @ rest)"

text \<open>
  A call stands at the start of a text; and the leftmost call of a text: the text is
  \<open>pre\<close>, then the call, then \<open>rest\<close>, and no call starts at an earlier position.
\<close>

definition hasCallAt :: "jsstring \<Rightarrow> bool" where
  "hasCallAt s =
     (\<exists>ws name args rest. isCallParts ws name args \<and> s = callText ws name args @ rest)"

definition isLeftmostCall ::
  "jsstring \<Rightarrow> jsstring \<Rightarrow> jsstring \<Rightarrow> jsstring \<Rightarrow> jsstring \<Rightarrow> jsstring \<Rightarrow> bool" where
  "isLeftmostCall response pre ws name args rest =
     (isCallParts ws name args \<and> response = pre @ callText ws name args @ rest \<and>
      (\<forall>k < length pre. \<not> hasCallAt (drop k response)))"

text \<open>
  The decimal literals of the first two pieces of a comma-separated parameter, when
  there are two pieces and both start with a literal.
\<close>

definition firstTwoNumbers :: "jsstring \<Rightarrow> (jsstring \<times> jsstring) option" where
  "firstTwoNumbers p =
     (case map (\<lambda>q. strDecimalLiteral (trimStart (trim q))) (split_str 0x2C p) of
        Some a # Some b # rest \<Rightarrow> Some (a, b)
      | _ \<Rightarrow> None)"

text \<open>The terminal activities of the spec: response, error and elicitation.\<close>

definition isTerminal :: "Content \<Rightarrow> bool" where
  "isTerminal c =
     (contentType c = Response \<or> contentType c = Error \<or> contentType c = Elicitation)"

text \<open>
  \<open>reaches w ms i s\<close>: the run of the loop from the history \<open>ms\<close> comes to the head of
  the loop with \<^verbatim>\<open>taskComplete\<close> false, \<^verbatim>\<open>iterations\<close> equal to \<open>i\<close> and the state \<open>s\<close>.
\<close>

inductive reaches :: "('n, 'r) World \<Rightarrow> Message list \<Rightarrow> nat \<Rightarrow> State \<Rightarrow> bool"
  for w :: "('n, 'r) World" and ms :: "Message list" where
  start: "reaches w ms 0 \<lparr>messages = ms, activities = [], created = 0\<rparr>"
| step: "reaches w ms i s \<Longrightarrow> i < MAX_ITERATIONS \<Longrightarrow> tryBlock w (Suc i) s = (None, False, s') \<Longrightarrow>
         reaches w ms (Suc i) s'"

text \<open>
  \<open>pagesFrom fetch p qs\<close>: after the page \<open>p\<close> the tracker serves the pages \<open>qs\<close>, each
  under the cursor of the page before it, and the last page of all announces no further
  page. The activity log of the session is then what the first page and these hold.
\<close>

fun pagesFrom :: "(jsstring option \<Rightarrow> thrown + Page) \<Rightarrow> Page \<Rightarrow> Page list \<Rightarrow> bool" where
  "pagesFrom fetch p [] = (\<not> (hasNextPage p \<and> orNull (endCursor p) \<noteq> None))"
| "pagesFrom fetch p (q # qs) =
     (hasNextPage p \<and> orNull (endCursor p) \<noteq> None \<and> fetch (endCursor p) = Inr q \<and>
      pagesFrom fetch q qs)"

text \<open>
  The prior turn that an activity of the log stands for, in the words of the spec: a
  prompt is a message of the user, a response one of the assistant, and no other kind
  is a turn.
\<close>

fun priorTurn :: "Content \<Rightarrow> Message option" where
  "priorTurn (PromptContent b) = Some (Message user b)"
| "priorTurn (ResponseContent b) = Some (Message assistant b)"
| "priorTurn c = None"

section \<open>A sample environment\<close>

text \<open>
  Tools that answer with text (a number stands for its literal), a tracker that accepts
  every activity and serves two pages of previous activities, newest first, and a
  completion service that follows a script, one reply for each iteration.
\<close>

definition sampleTools :: "(jsstring, jsstring) Tools" where
  "sampleTools =
     \<lparr>numberOf = (\<lambda>l. l),
      getCoordinates = (\<lambda>place. Inr (js ''{lat:48.1,long:11.6}'')),
      getWeather = (\<lambda>lat long. Inr (js ''{weather:sunny,at:'' @ lat @ js '';'' @ long @ js ''}'')),
      getTime = (\<lambda>lat long. Inr (js ''12:00'')),
      stringify = (\<lambda>v. v)\<rparr>"

definition samplePages :: "jsstring option \<Rightarrow> thrown + Page" where
  "samplePages after =
     (if after = None then
        Inr \<lparr>nodes = [ThoughtContent (js ''checking''), PromptContent (js ''and tomorrow?'')],
             hasNextPage = True, endCursor = Some (js ''c1'')\<rparr>
      else if after = Some (js ''c1'') then
        Inr \<lparr>nodes = [ResponseContent (js ''Sunny.''), PromptContent (js ''Weather in Paris?'')],
             hasNextPage = False, endCursor = None\<rparr>
      else Inl (JsError (js ''Unknown cursor'')))"

definition sampleWorld :: "(nat \<Rightarrow> thrown + jsstring option) \<Rightarrow> (jsstring, jsstring) World" where
  "sampleWorld script =
     \<lparr>completions = (\<lambda>i ms. script i),
      createFails = (\<lambda>k. None),
      tools = (\<lambda>i. sampleTools),
      unreachableMessage = (\<lambda>e. None),
      prompt = js ''You are a weather assistant.'',
      sessionActivities = (\<lambda>sid. samplePages)\<rparr>"

definition thinkingScript :: "nat \<Rightarrow> thrown + jsstring option" where
  "thinkingScript i = Inr (Some (js ''THINKING: let me see''))"


definition answeringScript :: "nat \<Rightarrow> thrown + jsstring option" where
  "answeringScript i =
     (if i = 1 then Inr (Some (js ''ACTION: getWeather(40.0, -74.0)''))
      else Inr (Some (js ''RESPONSE: It is sunny.'')))"

section \<open>Properties of the strings\<close>

lemma keyword_values:
  "js ''THINKING:'' = [0x54, 0x48, 0x49, 0x4E, 0x4B, 0x49, 0x4E, 0x47, 0x3A]"
  "js ''ACTION:'' = [0x41, 0x43, 0x54, 0x49, 0x4F, 0x4E, 0x3A]"
  "js ''RESPONSE:'' = [0x52, 0x45, 0x53, 0x50, 0x4F, 0x4E, 0x53, 0x45, 0x3A]"
  "js ''ELICITATION:'' = [0x45, 0x4C, 0x49, 0x43, 0x49, 0x54, 0x41, 0x54, 0x49, 0x4F, 0x4E, 0x3A]"
  "js ''ERROR:'' = [0x45, 0x52, 0x52, 0x4F, 0x52, 0x3A]"
  by (simp_all add: js_def)

lemma replace_str_prefix:
  "pat \<noteq> [] \<Longrightarrow> replace_str pat rep (pat @ rest) = rep @ rest"
  by (cases pat) (simp_all add: startsWith_def)

lemma replace_str_absent:
  "\<not> sublist pat s \<Longrightarrow> replace_str pat rep s = s"
proof (induction s)
  case Nil
  then show ?case by auto
next
  case (Cons c cs)
  have "\<not> startsWith (c # cs) pat"
    using Cons.prems prefix_imp_sublist by (auto simp: startsWith_def)
  moreover have "\<not> sublist pat cs"
    using Cons.prems by (auto simp: sublist_Cons_right)
  ultimately show ?case
    using Cons.IH by simp
qed

lemma takeWhile_run:
  "list_all P xs \<Longrightarrow> \<not> P y \<Longrightarrow> takeWhile P (xs @ y # ys) = xs"
  by (induction xs) simp_all

lemma dropWhile_run:
  "list_all P xs \<Longrightarrow> \<not> P y \<Longrightarrow> dropWhile P (xs @ y # ys) = y # ys"
  by (induction xs) simp_all

lemma wordChar_not_space: "isWordChar c \<Longrightarrow> \<not> isWhiteSpace c"
  by (auto simp: isWordChar_def isWhiteSpace_def word_le_nat_alt)

lemma paren_not_wordChar: "\<not> isWordChar 0x28"
  by (simp add: isWordChar_def)

section \<open>The regular expression of the mapper\<close>

text \<open>At a call of the pattern the expression matches, and its groups are the parts of the call.\<close>

lemma actionMatchAt_call:
  assumes "isCallParts ws name args"
  shows "actionMatchAt (callText ws name args @ rest) = Some (name, args)"
proof -
  from assms obtain c cs where name: "name = c # cs" and c: "isWordChar c"
    by (cases name) (auto simp: isCallParts_def)
  have ws: "list_all isWhiteSpace ws" and nm: "list_all isWordChar name"
    and ar: "list_all (\<lambda>d. d \<noteq> 0x29) args" and ne: "args \<noteq> []"
    using assms by (simp_all add: isCallParts_def)
  let ?tail = "args @ 0x29 # rest"
  have d1: "dropWhile isWhiteSpace (ws @ c # cs @ 0x28 # ?tail) = c # cs @ 0x28 # ?tail"
    using dropWhile_run [OF ws wordChar_not_space [OF c]] by simp
  have t2: "takeWhile isWordChar (name @ 0x28 # ?tail) = name"
    using takeWhile_run [OF nm paren_not_wordChar] by simp
  have d2: "dropWhile isWordChar (name @ 0x28 # ?tail) = 0x28 # ?tail"
    using dropWhile_run [OF nm paren_not_wordChar] by simp
  have t3: "takeWhile (\<lambda>d. d \<noteq> 0x29) (args @ 0x29 # rest) = args"
    using takeWhile_run [OF ar, of "0x29" rest] by simp
  have d3: "dropWhile (\<lambda>d. d \<noteq> 0x29) (args @ 0x29 # rest) = 0x29 # rest"
    using dropWhile_run [OF ar, of "0x29" rest] by simp
  have shape: "callText ws name args @ rest = js ''ACTION:'' @ ws @ name @ 0x28 # ?tail"
    by (simp add: callText_def)
  have len: "length (js ''ACTION:'') = 7"
    by (simp add: js_def)
  show ?thesis
    unfolding shape actionMatchAt_def
    using d1 t2 d2 t3 d3 ne len by (simp add: startsWith_def name)
qed

lemma actionMatchAt_nonempty: "actionMatchAt s = Some m \<Longrightarrow> s \<noteq> []"
  by (auto simp: actionMatchAt_def startsWith_def keyword_values split: if_splits)

lemma actionMatch_at: "actionMatchAt s = Some m \<Longrightarrow> actionMatch s = Some m"
  by (cases s) (auto dest: actionMatchAt_nonempty)

lemma actionMatch_later:
  "actionMatchAt s \<noteq> None \<Longrightarrow> actionMatch (pre @ s) \<noteq> None"
proof (induction pre)
  case Nil
  then show ?case using actionMatch_at by fastforce
next
  case (Cons c pre)
  then show ?case by (simp split: option.split)
qed

text \<open>Where the expression matches there is a call, and the groups are its parts.\<close>

lemma actionMatchAt_sound:
  assumes "actionMatchAt s = Some (name, args)"
  shows "\<exists>ws rest. isCallParts ws name args \<and> s = callText ws name args @ rest"
proof -
  from assms have sw: "startsWith s (js ''ACTION:'')"
    by (simp add: actionMatchAt_def split: if_splits)
  define r where "r = drop 7 s"
  define afterSpace where "afterSpace = dropWhile isWhiteSpace r"
  define ws where "ws = takeWhile isWhiteSpace r"
  have s: "s = js ''ACTION:'' @ r"
    using sw by (auto simp: startsWith_def prefix_def r_def js_def)
  have r: "r = ws @ afterSpace"
    by (simp add: ws_def afterSpace_def)
  from assms sw obtain c afterParen where
    dw: "dropWhile isWordChar afterSpace = c # afterParen"
    and nm: "name = takeWhile isWordChar afterSpace" and ne: "name \<noteq> []" and c: "c = 0x28"
    and ar: "args = takeWhile (\<lambda>d. d \<noteq> 0x29) afterParen" and ane: "args \<noteq> []"
    and rest: "dropWhile (\<lambda>d. d \<noteq> 0x29) afterParen \<noteq> []"
    by (auto simp: actionMatchAt_def Let_def r_def afterSpace_def split: list.splits if_splits)
  define rest' where "rest' = tl (dropWhile (\<lambda>d. d \<noteq> 0x29) afterParen)"
  have hd: "hd (dropWhile (\<lambda>d. d \<noteq> 0x29) afterParen) = 0x29"
    using hd_dropWhile [OF rest] by simp
  have dp: "dropWhile (\<lambda>d. d \<noteq> 0x29) afterParen = 0x29 # rest'"
    using rest hd by (cases "dropWhile (\<lambda>d. d \<noteq> 0x29) afterParen") (simp_all add: rest'_def)
  have ap: "afterParen = args @ 0x29 # rest'"
    using takeWhile_dropWhile_id [of "\<lambda>d. d \<noteq> 0x29" afterParen] by (simp add: ar dp)
  have as: "afterSpace = name @ 0x28 # afterParen"
    using takeWhile_dropWhile_id [of isWordChar afterSpace] by (simp add: nm dw c)
  have parts: "isCallParts ws name args"
    unfolding isCallParts_def
    using ne ane by (auto simp: ws_def nm ar list_all_iff dest: set_takeWhileD)
  have "s = callText ws name args @ rest'"
    by (simp add: s r as ap callText_def)
  with parts show ?thesis by blast
qed

lemma actionMatch_sound:
  "actionMatch s = Some (name, args) \<Longrightarrow>
   \<exists>pre ws rest. isCallParts ws name args \<and> s = pre @ callText ws name args @ rest"
proof (induction s)
  case Nil
  then show ?case by simp
next
  case (Cons c cs)
  show ?case
  proof (cases "actionMatchAt (c # cs)")
    case None
    with Cons.prems have "actionMatch cs = Some (name, args)" by simp
    from Cons.IH [OF this] obtain pre ws rest where
      "isCallParts ws name args" "cs = pre @ callText ws name args @ rest" by blast
    then have "isCallParts ws name args \<and> c # cs = (c # pre) @ callText ws name args @ rest"
      by simp
    then show ?thesis by blast
  next
    case (Some m)
    with Cons.prems have "actionMatchAt (c # cs) = Some (name, args)" by simp
    from actionMatchAt_sound [OF this] obtain ws rest where
      "isCallParts ws name args \<and> c # cs = [] @ callText ws name args @ rest" by auto
    then show ?thesis by blast
  qed
qed

text \<open>The expression matches a text exactly when the text has the call pattern.\<close>

lemma actionMatch_iff: "actionMatch s \<noteq> None \<longleftrightarrow> hasCallPattern s"
proof
  assume "actionMatch s \<noteq> None"
  then obtain name args where "actionMatch s = Some (name, args)" by auto
  from actionMatch_sound [OF this] show "hasCallPattern s"
    unfolding hasCallPattern_def by blast
next
  assume "hasCallPattern s"
  then obtain pre ws name args rest where
    p: "isCallParts ws name args" and s: "s = pre @ callText ws name args @ rest"
    unfolding hasCallPattern_def by blast
  from actionMatchAt_call [OF p, of rest] actionMatch_later [of "callText ws name args @ rest" pre]
  show "actionMatch s \<noteq> None" by (simp add: s)
qed

text \<open>The expression matches at the start of a text exactly when a call stands there.\<close>

lemma actionMatchAt_iff: "actionMatchAt s \<noteq> None \<longleftrightarrow> hasCallAt s"
proof
  assume "actionMatchAt s \<noteq> None"
  then obtain name args where "actionMatchAt s = Some (name, args)" by auto
  from actionMatchAt_sound [OF this] show "hasCallAt s"
    unfolding hasCallAt_def by blast
next
  assume "hasCallAt s"
  then obtain ws name args rest where
    "isCallParts ws name args" "s = callText ws name args @ rest"
    unfolding hasCallAt_def by blast
  then show "actionMatchAt s \<noteq> None"
    using actionMatchAt_call [of ws name args rest] by simp
qed

text \<open>The search passes over the positions at which the expression does not match.\<close>

lemma actionMatch_skip:
  "\<forall>k < n. actionMatchAt (drop k s) = None \<Longrightarrow> actionMatch s = actionMatch (drop n s)"
proof (induction s arbitrary: n)
  case Nil
  show ?case by simp
next
  case (Cons c cs)
  show ?case
  proof (cases n)
    case 0
    then show ?thesis by simp
  next
    case (Suc m)
    have "actionMatchAt (drop 0 (c # cs)) = None"
      using Cons.prems Suc by blast
    then have here: "actionMatch (c # cs) = actionMatch cs" by simp
    have "\<forall>k < m. actionMatchAt (drop k cs) = None"
    proof (intro allI impI)
      fix k assume "k < m"
      then have "Suc k < n" using Suc by simp
      with Cons.prems have "actionMatchAt (drop (Suc k) (c # cs)) = None" by blast
      then show "actionMatchAt (drop k cs) = None" by simp
    qed
    from Cons.IH [OF this] here Suc show ?thesis by simp
  qed
qed

text \<open>The groups that the search returns are the parts of the leftmost call.\<close>

lemma actionMatch_leftmost:
  assumes "isLeftmostCall response pre ws name args rest"
  shows "actionMatch response = Some (name, args)"
proof -
  from assms have parts: "isCallParts ws name args"
    and shape: "response = pre @ callText ws name args @ rest"
    and first: "\<forall>k < length pre. \<not> hasCallAt (drop k response)"
    unfolding isLeftmostCall_def by blast+
  have "\<forall>k < length pre. actionMatchAt (drop k response) = None"
    using first actionMatchAt_iff by blast
  from actionMatch_skip [OF this]
  have "actionMatch response = actionMatch (callText ws name args @ rest)"
    by (simp add: shape)
  then show ?thesis
    using actionMatch_at [OF actionMatchAt_call [OF parts, of rest]] by simp
qed

text \<open>A text that has the pattern has a leftmost call.\<close>

lemma actionMatch_first:
  "actionMatch s = Some (name, args) \<Longrightarrow>
   \<exists>pre ws rest. isCallParts ws name args \<and> s = pre @ callText ws name args @ rest \<and>
                  (\<forall>k < length pre. actionMatchAt (drop k s) = None)"
proof (induction s)
  case Nil
  then show ?case by simp
next
  case (Cons c cs)
  show ?case
  proof (cases "actionMatchAt (c # cs)")
    case None
    with Cons.prems have "actionMatch cs = Some (name, args)" by simp
    from Cons.IH [OF this] obtain pre ws rest where
      p: "isCallParts ws name args" and s: "cs = pre @ callText ws name args @ rest"
      and f: "\<forall>k < length pre. actionMatchAt (drop k cs) = None"
      by blast
    have "\<forall>k < length (c # pre). actionMatchAt (drop k (c # cs)) = None"
    proof (intro allI impI)
      fix k assume k: "k < length (c # pre)"
      show "actionMatchAt (drop k (c # cs)) = None"
      proof (cases k)
        case 0
        then show ?thesis using None by simp
      next
        case (Suc j)
        then show ?thesis using k f by simp
      qed
    qed
    moreover have "c # cs = (c # pre) @ callText ws name args @ rest"
      using s by simp
    ultimately show ?thesis using p by blast
  next
    case (Some m)
    with Cons.prems have "actionMatchAt (c # cs) = Some (name, args)" by simp
    from actionMatchAt_sound [OF this] obtain ws rest where
      "isCallParts ws name args" "c # cs = [] @ callText ws name args @ rest" by auto
    moreover have "\<forall>k < length ([]::jsstring). actionMatchAt (drop k (c # cs)) = None"
      by simp
    ultimately show ?thesis by blast
  qed
qed

lemma hasCallPattern_leftmost:
  assumes "hasCallPattern response"
  shows "\<exists>pre ws name args rest. isLeftmostCall response pre ws name args rest"
proof -
  from assms actionMatch_iff [of response] obtain name args where
    "actionMatch response = Some (name, args)" by auto
  from actionMatch_first [OF this] obtain pre ws rest where
    "isCallParts ws name args" "response = pre @ callText ws name args @ rest"
    "\<forall>k < length pre. actionMatchAt (drop k response) = None"
    by blast
  then have "isLeftmostCall response pre ws name args rest"
    using actionMatchAt_iff unfolding isLeftmostCall_def by blast
  then show ?thesis by blast
qed

section \<open>Properties of the Activity Mapper\<close>

lemma mapper_Thought:
  "mapResponseToLinearActivityContent (js ''THINKING:'' @ rest) =
     Inr (ThoughtContent (trim rest))"
  using replace_str_prefix [of "js ''THINKING:''" "[]" rest]
  by (simp add: mapResponseToLinearActivityContent_def typeToKeyword_def keywordOf_def
      startsWith_def keyword_values)

lemma mapper_Response:
  "mapResponseToLinearActivityContent (js ''RESPONSE:'' @ rest) =
     Inr (ResponseContent (trim rest))"
  using replace_str_prefix [of "js ''RESPONSE:''" "[]" rest]
  by (simp add: mapResponseToLinearActivityContent_def typeToKeyword_def keywordOf_def
      startsWith_def keyword_values)

lemma mapper_Elicitation:
  "mapResponseToLinearActivityContent (js ''ELICITATION:'' @ rest) =
     Inr (ElicitationContent (trim rest))"
  using replace_str_prefix [of "js ''ELICITATION:''" "[]" rest]
  by (simp add: mapResponseToLinearActivityContent_def typeToKeyword_def keywordOf_def
      startsWith_def keyword_values)

lemma mapper_Error:
  "mapResponseToLinearActivityContent (js ''ERROR:'' @ rest) =
     Inr (ErrorContent (trim rest))"
  using replace_str_prefix [of "js ''ERROR:''" "[]" rest]
  by (simp add: mapResponseToLinearActivityContent_def typeToKeyword_def keywordOf_def
      startsWith_def keyword_values)

lemma mapper_Action:
  "mapResponseToLinearActivityContent (js ''ACTION:'' @ rest) =
     (case actionMatch (js ''ACTION:'' @ rest) of
        Some (toolNameRaw, params) \<Rightarrow>
          if isToolName toolNameRaw
          then Inr (ActionContent toolNameRaw (orNull (Some params)) None)
          else Inl (JsError (js ''Invalid tool name: '' @ toolNameRaw))
      | None \<Rightarrow> Inl (UnreachableType Action))"
  by (simp add: mapResponseToLinearActivityContent_def typeToKeyword_def keywordOf_def
      startsWith_def keyword_values split: option.split)

lemma startsWith_split: "startsWith s k \<Longrightarrow> \<exists>rest. s = k @ rest \<and> drop (length k) s = rest"
  by (auto simp: startsWith_def prefix_def)

lemma actionMatch_params_nonempty: "actionMatch s = Some (name, args) \<Longrightarrow> args \<noteq> []"
  using actionMatch_sound [of s name args] by (auto simp: isCallParts_def)

text \<open>The mapper never gives an action a result, and gives it a parameter that is not empty.\<close>

lemma mapper_ActionContent:
  assumes "mapResponseToLinearActivityContent response = Inr (ActionContent a p r)"
  shows "r = None \<and> orNull p = p \<and> p \<noteq> None"
proof -
  obtain m where m: "actionMatch response = Some m"
    using assms
    by (cases "actionMatch response")
       (auto simp: mapResponseToLinearActivityContent_def Let_def
             split: AgentActivityType.splits)
  obtain name args where na: "m = (name, args)" by (cases m)
  have "args \<noteq> []" using actionMatch_params_nonempty m na by blast
  then show ?thesis
    using assms m na
    by (auto simp: mapResponseToLinearActivityContent_def Let_def
        split: AgentActivityType.splits if_splits)
qed

text \<open>
  C4, as the code has it. A completion that starts with \<^verbatim>\<open>THINKING:\<close>, \<^verbatim>\<open>RESPONSE:\<close>,
  \<^verbatim>\<open>ELICITATION:\<close> or \<^verbatim>\<open>ERROR:\<close> maps to the activity of that variant whose body is the
  input without that prefix, trimmed. A completion that starts with \<^verbatim>\<open>ACTION:\<close> either
  makes the mapper raise or maps to an action, which has a tool name and a parameter
  and no body.
\<close>

theorem mapper_keyword_prefix:
  assumes "(t, kw) \<in> set typeToKeyword" and "startsWith response kw"
  shows "(t \<noteq> Action \<and>
          (\<exists>c. mapResponseToLinearActivityContent response = Inr c \<and> contentType c = t \<and>
               contentBody c = Some (trim (drop (length kw) response)))) \<or>
         (t = Action \<and>
          ((\<exists>e. mapResponseToLinearActivityContent response = Inl e) \<or>
           (\<exists>name args. mapResponseToLinearActivityContent response =
                           Inr (ActionContent name (Some args) None))))"
proof -
  from assms(2) obtain rest where r: "response = kw @ rest" "drop (length kw) response = rest"
    using startsWith_split by blast
  from assms(1) consider
      "t = Thought" "kw = js ''THINKING:''" | "t = Action" "kw = js ''ACTION:''"
    | "t = Response" "kw = js ''RESPONSE:''" | "t = Elicitation" "kw = js ''ELICITATION:''"
    | "t = Error" "kw = js ''ERROR:''"
    by (auto simp: typeToKeyword_def)
  then show ?thesis
  proof cases
    case 1
    then show ?thesis using r mapper_Thought [of rest] by simp
  next
    case 2
    show ?thesis
    proof (cases "actionMatch (js ''ACTION:'' @ rest)")
      case None
      then show ?thesis using 2 r mapper_Action [of rest] by simp
    next
      case (Some m)
      obtain name args where na: "m = (name, args)" by (cases m)
      have "args \<noteq> []" using actionMatch_params_nonempty Some na by blast
      then show ?thesis using 2 r Some na mapper_Action [of rest] by simp
    qed
  next
    case 3
    then show ?thesis using r mapper_Response [of rest] by simp
  next
    case 4
    then show ?thesis using r mapper_Elicitation [of rest] by simp
  next
    case 5
    then show ?thesis using r mapper_Error [of rest] by simp
  qed
qed

theorem mapper_keyword_prefix_witness:
  "(\<exists>c. mapResponseToLinearActivityContent (js ''RESPONSE:  It is sunny. '') = Inr c \<and>
        contentType c = Response \<and> contentBody c = Some (js ''It is sunny.'')) \<and>
   (Response, js ''RESPONSE:'') \<in> set typeToKeyword \<and>
   startsWith (js ''RESPONSE:  It is sunny. '') (js ''RESPONSE:'')"
proof -
  have m: "(Response, js ''RESPONSE:'') \<in> set typeToKeyword"
    by (simp add: typeToKeyword_def)
  have p: "startsWith (js ''RESPONSE:  It is sunny. '') (js ''RESPONSE:'')"
    by (simp add: startsWith_def js_def)
  have t: "trim (drop (length (js ''RESPONSE:'')) (js ''RESPONSE:  It is sunny. '')) =
           js ''It is sunny.''"
    by code_simp
  show ?thesis
    using mapper_keyword_prefix [OF m p] m p by (simp add: t)
qed

text \<open>
  C4 as stated fails for the prefix \<^verbatim>\<open>ACTION:\<close>: the activity has no body (and so not the
  stripped and trimmed input as its body).
\<close>

theorem mapper_keyword_prefix_counterexample:
  "(Action, js ''ACTION:'') \<in> set typeToKeyword \<and>
   startsWith (js ''ACTION: getWeather(40.0, -74.0)'') (js ''ACTION:'') \<and>
   mapResponseToLinearActivityContent (js ''ACTION: getWeather(40.0, -74.0)'') =
     Inr (ActionContent (js ''getWeather'') (Some (js ''40.0, -74.0'')) None) \<and>
   contentBody (ActionContent (js ''getWeather'') (Some (js ''40.0, -74.0'')) None) = None \<and>
   trim (drop (length (js ''ACTION:'')) (js ''ACTION: getWeather(40.0, -74.0)'')) =
     js ''getWeather(40.0, -74.0)''"
  by code_simp

text \<open>
  C5 at the input \<^verbatim>\<open>"I am THINKING: hard"\<close>, which starts with no keyword: the mapper
  gives a thought, but its body is not the trimmed input, because \<^verbatim>\<open>replace\<close> removes the
  first \<^verbatim>\<open>THINKING:\<close> wherever it stands.
\<close>

theorem mapper_default_inner_keyword:
  "list_all (\<lambda>(t, kw). \<not> startsWith (js ''I am THINKING: hard'') kw) typeToKeyword \<and>
   mapResponseToLinearActivityContent (js ''I am THINKING: hard'') =
     Inr (ThoughtContent (js ''I am  hard'')) \<and>
   trim (js ''I am THINKING: hard'') = js ''I am THINKING: hard''"
  by code_simp

text \<open>
  Where the text \<^verbatim>\<open>THINKING:\<close> does not occur in a completion that starts with no keyword,
  the thought has the whole trimmed input as its body.
\<close>

lemma mapper_default_without_keyword:
  assumes "list_all (\<lambda>(t, kw). \<not> startsWith response kw) typeToKeyword"
    and "\<not> sublist (js ''THINKING:'') response"
  shows "mapResponseToLinearActivityContent response = Inr (ThoughtContent (trim response))"
proof -
  have "find (\<lambda>(t, keyword). startsWith response keyword) typeToKeyword = None"
    using assms(1) by (auto simp: find_None_iff list_all_iff)
  moreover have "keywordOf Thought = js ''THINKING:''"
    by (simp add: keywordOf_def typeToKeyword_def)
  ultimately show ?thesis
    using replace_str_absent [OF assms(2), of "[]"]
    by (simp add: mapResponseToLinearActivityContent_def)
qed

text \<open>
  C6. A completion that starts with \<^verbatim>\<open>ACTION:\<close> and has the call pattern (the keyword,
  white space, an identifier, the parenthesized arguments, wherever the expression
  finds it) has a leftmost call, and the mapper answers by that call: for a registered
  tool name it returns the action with that tool and the text between the parentheses
  as it stands; for any other identifier it fails with the invalid tool name error.
\<close>

theorem mapper_action_call:
  assumes "startsWith response (js ''ACTION:'')"
  shows "(hasCallPattern response \<longrightarrow>
            (\<exists>pre ws name args rest. isLeftmostCall response pre ws name args rest)) \<and>
         (isLeftmostCall response pre ws name args rest \<longrightarrow>
            mapResponseToLinearActivityContent response =
              (if isToolName name then Inr (ActionContent name (Some args) None)
               else Inl (JsError (js ''Invalid tool name: '' @ name))))"
proof (intro conjI impI)
  assume "hasCallPattern response"
  then show "\<exists>pre ws name args rest. isLeftmostCall response pre ws name args rest"
    by (rule hasCallPattern_leftmost)
next
  assume l: "isLeftmostCall response pre ws name args rest"
  then have ne: "args \<noteq> []"
    by (simp add: isLeftmostCall_def isCallParts_def)
  from assms obtain tail where r: "response = js ''ACTION:'' @ tail"
    using startsWith_split by blast
  have "actionMatch response = Some (name, args)"
    using actionMatch_leftmost [OF l] .
  then show "mapResponseToLinearActivityContent response =
              (if isToolName name then Inr (ActionContent name (Some args) None)
               else Inl (JsError (js ''Invalid tool name: '' @ name)))"
    using mapper_Action [of tail] ne by (simp add: r)
qed

theorem mapper_action_call_witness:
  "mapResponseToLinearActivityContent (js ''ACTION: getWeather(40.0, -74.0)'') =
     Inr (ActionContent (js ''getWeather'') (Some (js ''40.0, -74.0'')) None) \<and>
   mapResponseToLinearActivityContent (js ''ACTION:lookup(Paris) now'') =
     Inl (JsError (js ''Invalid tool name: lookup'')) \<and>
   mapResponseToLinearActivityContent (js ''ACTION: foo bar ACTION: getTime(1,2)'') =
     Inr (ActionContent (js ''getTime'') (Some (js ''1,2'')) None) \<and>
   hasCallPattern (js ''ACTION: foo bar ACTION: getTime(1,2)'')"
proof -
  have s1: "startsWith (js ''ACTION: getWeather(40.0, -74.0)'') (js ''ACTION:'')"
    and s2: "startsWith (js ''ACTION:lookup(Paris) now'') (js ''ACTION:'')"
    and s3: "startsWith (js ''ACTION: foo bar ACTION: getTime(1,2)'') (js ''ACTION:'')"
    by code_simp+
  have p1: "isCallParts (js '' '') (js ''getWeather'') (js ''40.0, -74.0'')"
    and p2: "isCallParts [] (js ''lookup'') (js ''Paris'')"
    and p3: "isCallParts (js '' '') (js ''getTime'') (js ''1,2'')"
    by code_simp+
  have t1: "js ''ACTION: getWeather(40.0, -74.0)'' =
            [] @ callText (js '' '') (js ''getWeather'') (js ''40.0, -74.0'') @ []"
    and t2: "js ''ACTION:lookup(Paris) now'' =
            [] @ callText [] (js ''lookup'') (js ''Paris'') @ js '' now''"
    and t3: "js ''ACTION: foo bar ACTION: getTime(1,2)'' =
            js ''ACTION: foo bar '' @ callText (js '' '') (js ''getTime'') (js ''1,2'') @ []"
    by code_simp+
  have la: "list_all
          (\<lambda>k. actionMatchAt (drop k (js ''ACTION: foo bar ACTION: getTime(1,2)'')) = None)
          [0 ..< length (js ''ACTION: foo bar '')]"
    by code_simp
  have f3: "\<forall>k < length (js ''ACTION: foo bar '').
              \<not> hasCallAt (drop k (js ''ACTION: foo bar ACTION: getTime(1,2)''))"
  proof (intro allI impI)
    fix k assume "k < length (js ''ACTION: foo bar '')"
    then have "k \<in> set [0 ..< length (js ''ACTION: foo bar '')]"
      by (simp only: set_upt atLeastLessThan_iff) simp
    with la have "actionMatchAt (drop k (js ''ACTION: foo bar ACTION: getTime(1,2)'')) = None"
      unfolding list_all_iff by blast
    then show "\<not> hasCallAt (drop k (js ''ACTION: foo bar ACTION: getTime(1,2)''))"
      using actionMatchAt_iff [of "drop k (js ''ACTION: foo bar ACTION: getTime(1,2)'')"]
      by blast
  qed
  have l1: "isLeftmostCall (js ''ACTION: getWeather(40.0, -74.0)'') []
              (js '' '') (js ''getWeather'') (js ''40.0, -74.0'') []"
    using p1 t1 by (simp add: isLeftmostCall_def)
  have l2: "isLeftmostCall (js ''ACTION:lookup(Paris) now'') []
              [] (js ''lookup'') (js ''Paris'') (js '' now'')"
    using p2 t2 by (simp add: isLeftmostCall_def)
  have l3: "isLeftmostCall (js ''ACTION: foo bar ACTION: getTime(1,2)'') (js ''ACTION: foo bar '')
              (js '' '') (js ''getTime'') (js ''1,2'') []"
    using p3 t3 f3 unfolding isLeftmostCall_def by blast
  have h3: "hasCallPattern (js ''ACTION: foo bar ACTION: getTime(1,2)'')"
    unfolding hasCallPattern_def using p3 t3 by blast
  have n1: "isToolName (js ''getWeather'')" and n2: "\<not> isToolName (js ''lookup'')"
    and n3: "isToolName (js ''getTime'')"
    by code_simp+
  have e: "js ''Invalid tool name: '' @ js ''lookup'' = js ''Invalid tool name: lookup''"
    by code_simp
  show ?thesis
    using mapper_action_call [OF s1, of "[]" "js '' ''" "js ''getWeather''" "js ''40.0, -74.0''" "[]"]
      mapper_action_call [OF s2, of "[]" "[]" "js ''lookup''" "js ''Paris''" "js '' now''"]
      mapper_action_call [OF s3, of "js ''ACTION: foo bar ''" "js '' ''" "js ''getTime''"
        "js ''1,2''" "[]"]
      l1 l2 l3 h3 n1 n2 n3 e
    by simp
qed

text \<open>
  C9. A completion that starts with \<^verbatim>\<open>ACTION:\<close> and has no call of the pattern in it
  makes the mapper raise (the \<^verbatim>\<open>UnreachableCaseError\<close> of the \<^verbatim>\<open>default\<close> branch): it
  returns no activity.
\<close>

theorem mapper_action_no_call:
  assumes "startsWith response (js ''ACTION:'')" and "\<not> hasCallPattern response"
  shows "mapResponseToLinearActivityContent response = Inl (UnreachableType Action)"
proof -
  from assms(1) obtain rest where r: "response = js ''ACTION:'' @ rest"
    using startsWith_split by blast
  have "actionMatch response = None"
    using assms(2) actionMatch_iff [of response] by (cases "actionMatch response") auto
  then show ?thesis
    using mapper_Action [of rest] by (simp add: r)
qed

theorem mapper_action_no_call_witness:
  "startsWith (js ''ACTION: getWeather()'') (js ''ACTION:'') \<and>
   \<not> hasCallPattern (js ''ACTION: getWeather()'') \<and>
   mapResponseToLinearActivityContent (js ''ACTION: getWeather()'') =
     Inl (UnreachableType Action)"
proof -
  have p: "startsWith (js ''ACTION: getWeather()'') (js ''ACTION:'')"
    by code_simp
  have "actionMatch (js ''ACTION: getWeather()'') = None"
    by code_simp
  then have n: "\<not> hasCallPattern (js ''ACTION: getWeather()'')"
    using actionMatch_iff [of "js ''ACTION: getWeather()''"] by simp
  show ?thesis
    using mapper_action_no_call [OF p n] p n by simp
qed

section \<open>Properties of the Tool Executors\<close>

lemma tool_names_distinct:
  "js ''getWeather'' \<noteq> js ''getCoordinates''"
  "js ''getTime'' \<noteq> js ''getCoordinates''"
  "js ''getTime'' \<noteq> js ''getWeather''"
  by (simp_all add: js_def)

lemma firstTwoNumbers_parts:
  "(case map (\<lambda>q. parseFloat T (trim q)) (split_str 0x2C p) of
      Some lat # Some long # rest \<Rightarrow> f lat long
    | _ \<Rightarrow> d) =
   (case firstTwoNumbers p of
      Some (a, b) \<Rightarrow> f (numberOf T a) (numberOf T b)
    | None \<Rightarrow> d)"
  by (cases "split_str 0x2C p" rule: list.exhaust [case_names Nil Cons])
     (auto simp: firstTwoNumbers_def parseFloat_def split: list.splits option.splits)

lemma numericTokens_first_two:
  "length (numericTokens p) < 2 \<Longrightarrow> firstTwoNumbers p = None"
  by (auto simp: numericTokens_def firstTwoNumbers_def split: list.splits option.splits)

text \<open>
  C7, as the code has it. On an empty parameter the get-weather executor fails with the
  missing-parameter error. On any other parameter it fails with the invalid-parameter
  error exactly when the first two comma-separated pieces are not both read as numbers,
  which is the case whenever fewer than two pieces are numeric; otherwise it calls the
  weather tool on the numbers of the first two pieces and returns the serialized
  answer, or fails as the tool does.
\<close>

theorem executeAction_getWeather:
  "executeAction T (js ''getWeather'') (Some p) =
     (if p = [] then Inl (JsError (js ''Parameter is required for action execution''))
      else case firstTwoNumbers p of
             None \<Rightarrow> Inl (JsError (js ''Invalid parameter for getWeather action''))
           | Some (a, b) \<Rightarrow>
               (case getWeather T (numberOf T a) (numberOf T b) of
                  Inl e \<Rightarrow> Inl e
                | Inr v \<Rightarrow> Inr (stringify T v))) \<and>
   (length (numericTokens p) < 2 \<longrightarrow> firstTwoNumbers p = None)"
proof -
  have "executeAction T (js ''getWeather'') (Some p) =
     (if p = [] then Inl (JsError (js ''Parameter is required for action execution''))
      else case firstTwoNumbers p of
             None \<Rightarrow> Inl (JsError (js ''Invalid parameter for getWeather action''))
           | Some (a, b) \<Rightarrow>
               (case getWeather T (numberOf T a) (numberOf T b) of
                  Inl e \<Rightarrow> Inl e
                | Inr v \<Rightarrow> Inr (stringify T v)))"
    unfolding executeAction_def Let_def firstTwoNumbers_parts
    by (simp add: tool_names_distinct split: option.split)
  then show ?thesis
    using numericTokens_first_two by blast
qed

theorem executeAction_getWeather_witness:
  "length (numericTokens (js ''abc'')) < 2 \<and>
   executeAction sampleTools (js ''getWeather'') (Some (js ''abc'')) =
     Inl (JsError (js ''Invalid parameter for getWeather action'')) \<and>
   executeAction sampleTools (js ''getWeather'') (Some (js ''40.0,-74.0'')) =
     Inr (js ''{weather:sunny,at:40.0;-74.0}'')"
proof -
  have n: "length (numericTokens (js ''abc'')) < 2" by code_simp
  have ne: "js ''abc'' \<noteq> []" by code_simp
  have ok: "executeAction sampleTools (js ''getWeather'') (Some (js ''40.0,-74.0'')) =
     Inr (js ''{weather:sunny,at:40.0;-74.0}'')" by code_simp
  from executeAction_getWeather [of sampleTools "js ''abc''"] n ne
  have "executeAction sampleTools (js ''getWeather'') (Some (js ''abc'')) =
     Inl (JsError (js ''Invalid parameter for getWeather action''))"
    by simp
  with n ok show ?thesis by simp
qed

text \<open>
  C7 as stated fails: \<^verbatim>\<open>"abc,1,2"\<close> has two numeric tokens and the executor raises the
  invalid-parameter error, because the first piece is no number; and on the empty
  parameter the error is the missing-parameter one.
\<close>

theorem executeAction_getWeather_counterexample:
  "length (numericTokens (js ''abc,1,2'')) = 2 \<and>
   executeAction sampleTools (js ''getWeather'') (Some (js ''abc,1,2'')) =
     Inl (JsError (js ''Invalid parameter for getWeather action'')) \<and>
   length (numericTokens (js '''')) = 0 \<and>
   executeAction sampleTools (js ''getWeather'') (Some (js '''')) =
     Inl (JsError (js ''Parameter is required for action execution''))"
  by code_simp

section \<open>Properties of the Agent Loop\<close>

subsection \<open>Persisting an activity\<close>


lemma createAgentActivity_result:
  assumes "createAgentActivity w c s = (exn, s')"
  shows "messages s' = messages s \<and> created s' = Suc (created s) \<and>
         activities s' = activities s @ (if exn = None then [c] else [])"
  using assms by (auto simp: createAgentActivity_def split: option.splits)

subsection \<open>One iteration\<close>


text \<open>
  The three failures that the spec names each leave the \<^verbatim>\<open>try\<close> block as an exception: a
  failure of the completion call (wrapped by \<^verbatim>\<open>callOpenAI\<close>), an error of the mapper (the
  invalid tool name), and an error of the executor (a missing or invalid parameter), which
  comes after the first activity of the action has been persisted.
\<close>

lemma tryBlock_completion_failure:
  assumes "completions w i (messages s) = Inl x"
  shows "tryBlock w i s =
           (Some (JsError (js ''OpenAI API error: '' @ errorMessage w x)), False, s)"
  using assms by (simp add: tryBlock_def callOpenAI_def)

lemma tryBlock_mapper_failure:
  assumes "callOpenAI w i (messages s) = Inr response"
    and "mapResponseToLinearActivityContent response = Inl e"
  shows "tryBlock w i s = (Some e, False, s)"
  using assms by (simp add: tryBlock_def)

lemma tryBlock_executor_failure:
  assumes "callOpenAI w i (messages s) = Inr response"
    and "mapResponseToLinearActivityContent response = Inr (ActionContent a p r)"
    and "createFails w (created s) = None"
    and "executeAction (tools w i) a p = Inl e"
  shows "tryBlock w i s =
           (Some e, False,
            s\<lparr>activities := activities s @ [ActionContent a p r],
              created := Suc (created s)\<rparr>)"
  using assms by (simp add: tryBlock_def createAgentActivity_def)

text \<open>
  What an iteration persists: one terminal activity when it sets \<^verbatim>\<open>taskComplete\<close>, and
  otherwise (also when it raises) nothing terminal.
\<close>

lemma tryBlock_activities:
  assumes "tryBlock w i s = (exn, tc, s')"
  shows "\<exists>cs. activities s' = activities s @ cs \<and>
              (if exn = None \<and> tc then \<exists>c. cs = [c] \<and> isTerminal c
               else list_all (\<lambda>c. \<not> isTerminal c) cs)"
proof (cases "callOpenAI w i (messages s)")
  case (Inl e)
  then show ?thesis using assms by (auto simp: tryBlock_def)
next
  case (Inr response)
  show ?thesis
  proof (cases "mapResponseToLinearActivityContent response")
    case (Inl e)
    then show ?thesis using assms Inr by (auto simp: tryBlock_def)
  next
    case mapped: (Inr content)
    obtain x1 s1 where c1: "createAgentActivity w content s = (x1, s1)"
      by (cases "createAgentActivity w content s")
    note r1 = createAgentActivity_result [OF c1]
    show ?thesis
    proof (cases content)
      case (ThoughtContent b)
      then show ?thesis
        using assms Inr mapped c1 r1
        by (cases x1) (auto simp: tryBlock_def isTerminal_def)
    next
      case (ActionContent a p r)
      show ?thesis
      proof (cases x1)
        case (Some e)
        then show ?thesis
          using assms Inr mapped c1 r1 ActionContent by (auto simp: tryBlock_def)
      next
        case None
        show ?thesis
        proof (cases "executeAction (tools w i) a p")
          case (Inl e)
          then show ?thesis
            using assms Inr mapped c1 r1 ActionContent None
            by (auto simp: tryBlock_def isTerminal_def)
        next
          case ran: (Inr toolResult)
          define s2 where "s2 = s1\<lparr>messages := messages s1 @
              [Message assistant response, Message user (js ''Tool result: '' @ toolResult)]\<rparr>"
          obtain x3 s3 where c3:
            "createAgentActivity w (ActionContent a (orNull p) (Some toolResult)) s2 = (x3, s3)"
            by (cases "createAgentActivity w (ActionContent a (orNull p) (Some toolResult)) s2")
          note r3 = createAgentActivity_result [OF c3]
          have a2: "activities s2 = activities s1" by (simp add: s2_def)
          have "tryBlock w i s = (x3, False, s3)"
            using Inr mapped c1 ActionContent None ran c3
            by (cases x3) (simp_all add: tryBlock_def s2_def Let_def)
          then show ?thesis
            using assms r1 r3 a2 ActionContent None
            by (cases x3) (auto simp: isTerminal_def)
        qed
      qed
    next
      case (ResponseContent b)
      then show ?thesis
        using assms Inr mapped c1 r1
        by (cases x1) (auto simp: tryBlock_def isTerminal_def)
    next
      case (ElicitationContent b)
      then show ?thesis
        using assms Inr mapped c1 r1
        by (cases x1) (auto simp: tryBlock_def isTerminal_def)
    next
      case (ErrorContent b)
      then show ?thesis
        using assms Inr mapped c1 r1
        by (cases x1) (auto simp: tryBlock_def isTerminal_def)
    next
      case (PromptContent b)
      then show ?thesis
        using assms Inr mapped by (auto simp: tryBlock_def)
    qed
  qed
qed

lemma tryBlock_terminals:
  assumes "tryBlock w i s = (exn, tc, s')"
  shows "filter isTerminal (activities s') =
           filter isTerminal (activities s) @
           (if exn = None \<and> tc then [last (activities s')] else []) \<and>
         (exn = None \<and> tc \<longrightarrow> isTerminal (last (activities s')))"
proof -
  from tryBlock_activities [OF assms] obtain cs where
    cs: "activities s' = activities s @ cs"
    and k: "if exn = None \<and> tc then \<exists>c. cs = [c] \<and> isTerminal c
            else list_all (\<lambda>c. \<not> isTerminal c) cs"
    by blast
  show ?thesis
  proof (cases "exn = None \<and> tc")
    case True
    with k obtain c where "cs = [c]" "isTerminal c" by auto
    with cs True show ?thesis by simp
  next
    case False
    with k have "filter isTerminal cs = []"
      by (auto simp: list_all_iff filter_empty_conv)
    with cs False show ?thesis by auto
  qed
qed

subsection \<open>The loop, step by step\<close>

declare whileLoop.simps [simp del]

lemma whileLoop_stop:
  "taskComplete \<or> MAX_ITERATIONS \<le> i \<Longrightarrow> whileLoop w taskComplete i s = (None, taskComplete, i, s)"
  by (subst whileLoop.simps) auto

lemma whileLoop_continue:
  "i < MAX_ITERATIONS \<Longrightarrow> tryBlock w (Suc i) s = (None, tc, s') \<Longrightarrow>
   whileLoop w False i s = whileLoop w tc (Suc i) s'"
  by (subst whileLoop.simps) simp

lemma whileLoop_caught:
  "i < MAX_ITERATIONS \<Longrightarrow> tryBlock w (Suc i) s = (Some e, tc, s') \<Longrightarrow>
   createAgentActivity w (ErrorContent (js ''Agent error: '' @ errorMessage w e)) s' = (None, s'') \<Longrightarrow>
   whileLoop w False i s = (None, True, Suc i, s'')"
  by (subst whileLoop.simps) (simp add: whileLoop_stop)

lemma whileLoop_uncaught:
  "i < MAX_ITERATIONS \<Longrightarrow> tryBlock w (Suc i) s = (Some e, tc, s') \<Longrightarrow>
   createAgentActivity w (ErrorContent (js ''Agent error: '' @ errorMessage w e)) s' = (Some e', s'') \<Longrightarrow>
   whileLoop w False i s = (Some e', False, Suc i, s'')"
  by (subst whileLoop.simps) simp


lemma isTerminal_ErrorContent: "isTerminal (ErrorContent b)"
  by (simp add: isTerminal_def)

text \<open>
  While \<^verbatim>\<open>taskComplete\<close> is false no terminal activity has been persisted, and once it is
  true exactly one has.
\<close>

lemma whileLoop_terminals:
  "MAX_ITERATIONS - i = k \<Longrightarrow>
   length (filter isTerminal (activities s)) = (if tc then 1 else 0) \<Longrightarrow>
   whileLoop w tc i s = (exn, tc', i', s') \<Longrightarrow>
   length (filter isTerminal (activities s')) = (if tc' then 1 else 0)"
proof (induction k arbitrary: i tc s)
  case 0
  then show ?case using whileLoop_stop [of tc i w s] by simp
next
  case (Suc k)
  then have lt: "i < MAX_ITERATIONS" by simp
  show ?case
  proof (cases tc)
    case True
    then show ?thesis using Suc.prems whileLoop_stop [of tc i w s] by simp
  next
    case False
    obtain x1 tc1 s1 where t: "tryBlock w (Suc i) s = (x1, tc1, s1)"
      by (cases "tryBlock w (Suc i) s")
    note tt = tryBlock_terminals [OF t]
    show ?thesis
    proof (cases x1)
      case None
      have run: "whileLoop w tc1 (Suc i) s1 = (exn, tc', i', s')"
        using whileLoop_continue [OF lt, of w s tc1 s1] t None False Suc.prems by simp
      have "length (filter isTerminal (activities s1)) = (if tc1 then 1 else 0)"
        using tt None False Suc.prems(2) by simp
      moreover have "MAX_ITERATIONS - Suc i = k"
        using Suc.prems(1) by simp
      ultimately show ?thesis
        using Suc.IH [of "Suc i" s1 tc1] run by simp
    next
      case (Some e)
      have none: "filter isTerminal (activities s1) = []"
        using tt Some False Suc.prems(2) by simp
      obtain x2 s2 where c:
        "createAgentActivity w (ErrorContent (js ''Agent error: '' @ errorMessage w e)) s1 = (x2, s2)"
        by (cases "createAgentActivity w (ErrorContent (js ''Agent error: '' @ errorMessage w e)) s1")
      note r = createAgentActivity_result [OF c]
      show ?thesis
      proof (cases x2)
        case None
        then show ?thesis
          using whileLoop_caught [OF lt, of w s e tc1 s1 s2] t Some c False Suc.prems(3) r none
          by (auto simp: isTerminal_ErrorContent)
      next
        case inner: (Some e')
        then show ?thesis
          using whileLoop_uncaught [OF lt, of w s e tc1 s1 e' s2] t Some c False Suc.prems(3)
            r none
          by auto
      qed
    qed
  qed
qed



subsection \<open>The claims on the loop\<close>






text \<open>
  C3. An iteration whose completion maps to an action and whose tool runs (the tracker
  accepting both activities) persists two activities, in this order: the action with
  its parameter and no result, then the action with the same tool name, the same
  parameter and the result of the tool. It appends the raw text of the model and the
  message \<^verbatim>\<open>Tool result: <result>\<close> to the history, and leaves \<^verbatim>\<open>taskComplete\<close> false, so
  the loop goes on with that history.
\<close>

theorem tryBlock_Action:
  assumes "callOpenAI w i (messages s) = Inr response"
    and "mapResponseToLinearActivityContent response = Inr (ActionContent a p r)"
    and "executeAction (tools w i) a p = Inr toolResult"
    and "createFails w (created s) = None"
    and "createFails w (Suc (created s)) = None"
  shows "r = None \<and>
         tryBlock w i s =
           (None, False,
            s\<lparr>messages := messages s @
                  [Message assistant response,
                   Message user (js ''Tool result: '' @ toolResult)],
              activities := activities s @
                  [ActionContent a p None, ActionContent a p (Some toolResult)],
              created := Suc (Suc (created s))\<rparr>)"
proof -
  from mapper_ActionContent [OF assms(2)] have r: "r = None" and p: "orNull p = p"
    by simp_all
  show ?thesis
    using assms r p by (simp add: tryBlock_def createAgentActivity_def Let_def)
qed

theorem tryBlock_Action_witness:
  "tryBlock (sampleWorld answeringScript) 1 \<lparr>messages = [], activities = [], created = 0\<rparr> =
     (None, False,
      \<lparr>messages =
         [Message assistant (js ''ACTION: getWeather(40.0, -74.0)''),
          Message user (js ''Tool result: {weather:sunny,at:40.0;-74.0}'')],
       activities =
         [ActionContent (js ''getWeather'') (Some (js ''40.0, -74.0'')) None,
          ActionContent (js ''getWeather'') (Some (js ''40.0, -74.0''))
            (Some (js ''{weather:sunny,at:40.0;-74.0}''))],
       created = 2\<rparr>)"
proof -
  let ?w = "sampleWorld answeringScript"
  let ?s = "\<lparr>messages = [], activities = [], created = 0\<rparr>"
  have c: "callOpenAI ?w 1 (messages ?s) = Inr (js ''ACTION: getWeather(40.0, -74.0)'')"
    by code_simp
  have m: "mapResponseToLinearActivityContent (js ''ACTION: getWeather(40.0, -74.0)'') =
           Inr (ActionContent (js ''getWeather'') (Some (js ''40.0, -74.0'')) None)"
    by code_simp
  have x: "executeAction (tools ?w 1) (js ''getWeather'') (Some (js ''40.0, -74.0'')) =
           Inr (js ''{weather:sunny,at:40.0;-74.0}'')"
    by code_simp
  have a: "createFails ?w (created ?s) = None" "createFails ?w (Suc (created ?s)) = None"
    by (simp_all add: sampleWorld_def)
  have t: "js ''Tool result: '' @ js ''{weather:sunny,at:40.0;-74.0}'' =
           js ''Tool result: {weather:sunny,at:40.0;-74.0}''"
    by code_simp
  show ?thesis
    using tryBlock_Action [OF c m x a] by (simp add: t numeral_2_eq_2)
qed

text \<open>
  C10. A run persists at most one terminal activity (response, error or elicitation,
  the error of the failure handler and the error of the iteration limit included).
  After the loop the run either persists nothing more, or no terminal activity was
  persisted in the loop and the one activity added is the error of the iteration
  limit.
\<close>

theorem agentLoop_one_terminal:
  "length (filter isTerminal (activities (snd (snd (agentLoop w ms))))) \<le> 1 \<and>
   (activities (snd (snd (agentLoop w ms))) =
      activities (snd (snd (snd (whileLoop w False 0
        \<lparr>messages = ms, activities = [], created = 0\<rparr>)))) \<or>
    filter isTerminal (activities (snd (snd (snd (whileLoop w False 0
        \<lparr>messages = ms, activities = [], created = 0\<rparr>))))) = [] \<and>
    activities (snd (snd (agentLoop w ms))) =
      activities (snd (snd (snd (whileLoop w False 0
        \<lparr>messages = ms, activities = [], created = 0\<rparr>)))) @
      [ErrorContent maxIterationsMessage])"
proof -
  obtain exn tc i' s' where
    run: "whileLoop w False 0 \<lparr>messages = ms, activities = [], created = 0\<rparr> = (exn, tc, i', s')"
    by (cases "whileLoop w False 0 \<lparr>messages = ms, activities = [], created = 0\<rparr>")
  have inv: "length (filter isTerminal (activities s')) = (if tc then 1 else 0)"
    using whileLoop_terminals [OF _ _ run] by simp
  show ?thesis
  proof (cases "exn = None \<and> \<not> tc \<and> MAX_ITERATIONS \<le> i'")
    case True
    obtain x s'' where c: "createAgentActivity w (ErrorContent maxIterationsMessage) s' = (x, s'')"
      by (cases "createAgentActivity w (ErrorContent maxIterationsMessage) s'")
    note r = createAgentActivity_result [OF c]
    have "agentLoop w ms = (x, i', s'')"
      using run True c by (simp add: agentLoop_def afterLoop_def)
    then show ?thesis
      using run inv True r by (cases x) (auto simp: isTerminal_ErrorContent)
  next
    case False
    then have "snd (snd (agentLoop w ms)) = s'"
      using run by (cases exn) (auto simp: agentLoop_def afterLoop_def)
    then show ?thesis
      using run inv by simp
  qed
qed

theorem agentLoop_one_terminal_witness:
  "filter isTerminal (activities (snd (snd (agentLoop (sampleWorld answeringScript) [])))) =
     [ResponseContent (js ''It is sunny.'')] \<and>
   filter isTerminal (activities (snd (snd (agentLoop (sampleWorld thinkingScript) [])))) =
     [ErrorContent maxIterationsMessage] \<and>
   length (filter isTerminal
     (activities (snd (snd (agentLoop (sampleWorld answeringScript) []))))) \<le> 1"
proof -
  have 1: "filter isTerminal (activities (snd (snd (agentLoop (sampleWorld answeringScript) [])))) =
     [ResponseContent (js ''It is sunny.'')]"
    by code_simp
  have 2: "filter isTerminal (activities (snd (snd (agentLoop (sampleWorld thinkingScript) [])))) =
     [ErrorContent maxIterationsMessage]"
    by code_simp
  show ?thesis
    using agentLoop_one_terminal [of "sampleWorld answeringScript" "[]"] 1 2 by simp
qed

section \<open>Properties of the seeding of the history\<close>

text \<open>Against a tracker that serves a last page the fetch loop returns all the pages hold.\<close>

lemma fetchPages_pagesFrom:
  "pagesFrom fetch p qs \<Longrightarrow>
   fetchPages fetch acc p (hasNextPage p) = Some (Inr (acc @ concat (map nodes qs)))"
proof (induction qs arbitrary: p acc)
  case Nil
  then show ?case by (subst fetchPages.simps) auto
next
  case (Cons q qs)
  then have "fetchPages fetch acc p (hasNextPage p) =
             fetchPages fetch (acc @ nodes q) q (hasNextPage q)"
    by (subst fetchPages.simps) simp
  then show ?case using Cons.IH [of q "acc @ nodes q"] Cons.prems by simp
qed

text \<open>Filtering, reversing and mapping as the code does gives the prior turns, newest last.\<close>

lemma prior_turns:
  "map activityMessage (rev (filter isPromptOrResponse log)) =
   rev (List.map_filter priorTurn log)"
proof (induction log)
  case Nil
  show ?case by (simp add: List.map_filter_simps)
next
  case (Cons c log)
  then show ?case
    by (cases c)
       (simp_all add: List.map_filter_simps isPromptOrResponse_def activityMessage_def)
qed

text \<open>
  C8. When the tracker serves the activity log of the session in finitely many pages,
  \<^verbatim>\<open>handleUserPrompt\<close> returns, and it runs the loop on this history: the system
  instruction, then the user prompt if it is not empty, then the prior turns of the
  log, which are its prompts (as user messages) and its responses (as assistant
  messages) and nothing else, in the reverse of the order of the log.
\<close>

theorem handleUserPrompt_history:
  assumes "sessionActivities w agentSessionId None = Inr first"
    and "pagesFrom (sessionActivities w agentSessionId) first pages"
  shows "handleUserPrompt w agentSessionId userPrompt =
           Some (agentLoop w
             ([Message system (prompt w)] @
              (if userPrompt \<noteq> [] then [Message user userPrompt] else []) @
              rev (List.map_filter priorTurn (concat (map nodes (first # pages))))))"
proof -
  have "fetchPages (sessionActivities w agentSessionId) (nodes first) first (hasNextPage first) =
        Some (Inr (concat (map nodes (first # pages))))"
    using fetchPages_pagesFrom [OF assms(2), of "nodes first"] by simp
  then have "generateMessagesFromPreviousActivities w agentSessionId =
        Some (Inr (rev (List.map_filter priorTurn (concat (map nodes (first # pages))))))"
    using assms(1) prior_turns [of "concat (map nodes (first # pages))"]
    by (simp add: generateMessagesFromPreviousActivities_def)
  then show ?thesis
    by (simp add: handleUserPrompt_def)
qed

theorem handleUserPrompt_history_witness:
  "handleUserPrompt (sampleWorld answeringScript) (js ''session'') (js ''And in Rome?'') =
     Some (agentLoop (sampleWorld answeringScript)
       [Message system (js ''You are a weather assistant.''),
        Message user (js ''And in Rome?''),
        Message user (js ''Weather in Paris?''),
        Message assistant (js ''Sunny.''),
        Message user (js ''and tomorrow?'')])"
proof -
  let ?w = "sampleWorld answeringScript"
  let ?first = "\<lparr>nodes = [ThoughtContent (js ''checking''), PromptContent (js ''and tomorrow?'')],
                 hasNextPage = True, endCursor = Some (js ''c1'')\<rparr>"
  let ?second = "\<lparr>nodes = [ResponseContent (js ''Sunny.''), PromptContent (js ''Weather in Paris?'')],
                  hasNextPage = False, endCursor = None\<rparr>"
  have f: "sessionActivities ?w (js ''session'') None = Inr ?first"
    by (simp add: sampleWorld_def samplePages_def)
  have c1: "js ''c1'' \<noteq> []" by code_simp
  have p: "pagesFrom (sessionActivities ?w (js ''session'')) ?first [?second]"
    by (simp add: sampleWorld_def samplePages_def c1)
  have ne: "js ''And in Rome?'' \<noteq> []" by code_simp
  have pr: "prompt ?w = js ''You are a weather assistant.''"
    by (simp add: sampleWorld_def)
  show ?thesis
    using handleUserPrompt_history [OF f p, of "js ''And in Rome?''"]
    by (simp add: ne pr List.map_filter_simps)
qed

end
